(* ===== verification/Prelude.thy ===== *)
theory Prelude
  imports Main "HOL-Library.Word"
begin

text \<open>
  Shared vocabulary of the firmware model: the machine types of the C program
  (\<open>uint32_t\<close> as a 32-bit word, \<open>esp_err_t\<close> as a mathematical integer, since
  no arithmetic is done on it), the rule collections the component theories fill,
  the lemmas on 32-bit flags that several components use, and a
  characterisation of \<open>takeWhile\<close> used for C strings.
\<close>

type_synonym u32 = "32 word"
type_synonym esp_err = int
type_synonym handle = nat

named_theorems firmware_simps "unfolding rules of the firmware's state updates"

subsection \<open>32-bit flags\<close>

text \<open>A C boolean stored in a \<open>uint32_t\<close>: the values 0 and 1 and their tests.\<close>

definition flag01 :: "u32 \<Rightarrow> bool" where
  "flag01 w \<longleftrightarrow> w = 0 \<or> w = 1"

subsection \<open>Lemmas on flags\<close>

lemma flag01_0 [simp]: "flag01 0" and flag01_1 [simp]: "flag01 1"
  by (simp_all add: flag01_def)

lemma flag01_of_bool [simp]: "flag01 (of_bool b)"
  by (cases b) simp_all

subsection \<open>Lists\<close>

text \<open>\<open>takeWhile P xs\<close> is the prefix of \<open>xs\<close> that satisfies \<open>P\<close> and stops at the end or at
  the first element that fails \<open>P\<close>.\<close>

lemma takeWhile_eqI:
  "take (length v) xs = v \<Longrightarrow> \<forall>x\<in>set v. P x \<Longrightarrow> length v = length xs \<or> \<not> P (xs ! length v) \<Longrightarrow>
   takeWhile P xs = v"
proof (induction v arbitrary: xs)
  case Nil
  then show ?case by (cases xs) auto
next
  case (Cons a v)
  then show ?case by (cases xs) auto
qed

end
