(* ===== verification/Firmware_State.thy ===== *)
theory Firmware_State
  imports Prelude
begin

text \<open>
  The global state of \<open>src/src/main.c\<close> and the external calls it issues.
  The file-scope variables \<open>MQTT_CONNECTED\<close> (line 28) and \<open>client\<close> (line 164)
  are two fields of the record \<open>globals\<close>. The MQTT library's handle allocation is
  a counter \<open>next_handle\<close>, and every call the firmware makes into the Wi-Fi, MQTT
  or C library is appended to \<open>calls\<close>, so that the observable behaviour of the
  firmware is the list of calls it issues, in order. A handle is a number;
  \<open>NULL\<close> is \<open>None\<close>.
\<close>

datatype call =
    Esp_wifi_connect
  | Mqtt_client_init string
  | Mqtt_register_event "handle option"
  | Mqtt_client_start "handle option"
  | Mqtt_subscribe "handle option" string int
  | Mqtt_publish "handle option" string string int int int
  | Printf string

record globals =
  mqtt_connected :: u32
  client :: "handle option"
  next_handle :: nat
  calls :: "call list"

text \<open>\<open>ESP_OK\<close>, the success code of \<open>esp_err_t\<close> (esp_err.h).\<close>

definition ESP_OK :: esp_err where
  "ESP_OK = 0"

definition initial_globals :: globals where
  "initial_globals = \<lparr>mqtt_connected = 0, client = None, next_handle = 0, calls = []\<rparr>"

text \<open>Issuing a call appends it to the log and changes nothing else.\<close>

definition issue :: "call \<Rightarrow> globals \<Rightarrow> globals" where
  "issue c g = g\<lparr>calls := calls g @ [c]\<rparr>"

text \<open>Kinds of calls, as tests, so that calls of one kind can be counted.\<close>

fun is_wifi_connect :: "call \<Rightarrow> bool" where
  "is_wifi_connect Esp_wifi_connect = True"
| "is_wifi_connect _ = False"

fun is_client_init :: "call \<Rightarrow> bool" where
  "is_client_init (Mqtt_client_init _) = True"
| "is_client_init _ = False"

fun is_subscribe :: "call \<Rightarrow> bool" where
  "is_subscribe (Mqtt_subscribe _ _ _) = True"
| "is_subscribe _ = False"

text \<open>
  A session is started when \<open>esp_mqtt_client_start\<close> was called on its handle;
  only started sessions deliver events to the firmware.
\<close>

definition is_started :: "globals \<Rightarrow> handle \<Rightarrow> bool" where
  "is_started g h \<longleftrightarrow> Mqtt_client_start (Some h) \<in> set (calls g)"

lemma issue_fields [simp, firmware_simps]:
  "calls (issue c g) = calls g @ [c]"
  "mqtt_connected (issue c g) = mqtt_connected g"
  "client (issue c g) = client g"
  "next_handle (issue c g) = next_handle g"
  by (simp_all add: issue_def)

lemma issue_update_commute [simp]:
  "issue c (g\<lparr>mqtt_connected := v\<rparr>) = (issue c g)\<lparr>mqtt_connected := v\<rparr>"
  "issue c (g\<lparr>client := h\<rparr>) = (issue c g)\<lparr>client := h\<rparr>"
  by (simp_all add: issue_def)

lemma is_started_issue [simp]:
  "is_started (issue c g) h \<longleftrightarrow> is_started g h \<or> c = Mqtt_client_start (Some h)"
  by (auto simp: is_started_def)

lemma is_started_update [simp]:
  "is_started (g\<lparr>mqtt_connected := v\<rparr>) h = is_started g h"
  "is_started (g\<lparr>client := c\<rparr>) h = is_started g h"
  "is_started (g\<lparr>next_handle := n\<rparr>) h = is_started g h"
  by (simp_all add: is_started_def)

end
