(* ===== verification/Mqtt_Handler.thy ===== *)
theory Mqtt_Handler
  imports Firmware_State
begin

text \<open>
  The session controller: \<open>mqtt_event_handler\<close> (main.c lines 100-161), the
  callback the MQTT library calls for every event of a session it runs. An event
  carries the handle of the session that raised it (\<open>event->client\<close>), a message
  id, and for \<open>MQTT_EVENT_DATA\<close> the topic and payload as pointer/length views into
  the library's buffer. The handler sets \<open>MQTT_CONNECTED\<close> on connect and clears it
  on disconnect, subscribes to three topics on connect, prints topic and payload on
  data, and only logs otherwise. Logging (\<open>ESP_LOGI\<close>, \<open>ESP_LOGD\<close>) is not
  modelled: it has no effect on the state or on the library.
\<close>

datatype esp_mqtt_event_id =
    MQTT_EVENT_ANY
  | MQTT_EVENT_ERROR
  | MQTT_EVENT_CONNECTED
  | MQTT_EVENT_DISCONNECTED
  | MQTT_EVENT_SUBSCRIBED
  | MQTT_EVENT_UNSUBSCRIBED
  | MQTT_EVENT_PUBLISHED
  | MQTT_EVENT_DATA
  | MQTT_EVENT_BEFORE_CONNECT
  | MQTT_EVENT_DELETED

record esp_mqtt_event =
  ev_id :: esp_mqtt_event_id
  ev_client :: handle
  ev_msg_id :: int
  ev_topic :: string
  ev_topic_len :: int
  ev_data :: string
  ev_data_len :: int

subsection \<open>printf with a precision\<close>

text \<open>
  \<open>printf("%.*s", len, p)\<close> prints the bytes at \<open>p\<close> up to the first NUL, but at
  most \<open>len\<close> of them; a negative precision counts as no precision. The string
  argument is the buffer contents from \<open>p\<close> on.
\<close>

definition printf_view :: "int \<Rightarrow> string \<Rightarrow> string" where
  "printf_view len s = takeWhile (\<lambda>c. c \<noteq> CHR 0x00) (if len < 0 then s else take (nat len) s)"

definition crlf :: string where
  "crlf = [CHR 0x0D, CHR 0x0A]"

text \<open>
  What \<open>printf("%.*s", len, p)\<close> promises, stated without computing it: the text
  printed is a NUL-free prefix of the buffer of at most \<open>len\<close> bytes, and it stops
  only at the bound, at the end of the buffer, or at a NUL.
\<close>

definition printed_view :: "int \<Rightarrow> string \<Rightarrow> string \<Rightarrow> bool" where
  "printed_view len s v \<longleftrightarrow>
     length v \<le> nat len \<and> take (length v) s = v \<and> CHR 0x00 \<notin> set v \<and>
     (length v = min (nat len) (length s) \<or> s ! length v = CHR 0x00)"

subsection \<open>The handler\<close>

definition mqtt_event_handler :: "esp_mqtt_event \<Rightarrow> globals \<Rightarrow> globals" where
  "mqtt_event_handler event g =
    (let c = Some (ev_client event) in
     case ev_id event of
       MQTT_EVENT_CONNECTED \<Rightarrow>
         (let g1 = g\<lparr>mqtt_connected := 1\<rparr>;
              g2 = issue (Mqtt_subscribe c ''/cm/test1'' 0) g1;
              g3 = issue (Mqtt_subscribe c ''/cm/test2'' 1) g2
          in issue (Mqtt_subscribe c ''/tge/e0000000/sub'' 1) g3)
     | MQTT_EVENT_DISCONNECTED \<Rightarrow> g\<lparr>mqtt_connected := 0\<rparr>
     | MQTT_EVENT_DATA \<Rightarrow>
         (let g1 = issue (Printf (''TOPIC='' @ printf_view (ev_topic_len event) (ev_topic event) @ crlf)) g
          in issue (Printf (''DATA='' @ printf_view (ev_data_len event) (ev_data event) @ crlf)) g1)
     | _ \<Rightarrow> g)"

text \<open>The session events that decide the health flag.\<close>

fun is_session_status :: "esp_mqtt_event_id \<Rightarrow> bool" where
  "is_session_status MQTT_EVENT_CONNECTED = True"
| "is_session_status MQTT_EVENT_DISCONNECTED = True"
| "is_session_status _ = False"

subsection \<open>Specification of the session controller\<close>

text \<open>
  The fixed subscription set of the design (three topics with delivery levels
  0, 1, 1), and the health the design promises: the flag is set exactly when the
  last connect/disconnect event seen was a connect; with no such event, it keeps
  its value.
\<close>

definition subscription_set :: "(string \<times> int) list" where
  "subscription_set = [(''/cm/test1'', 0), (''/cm/test2'', 1), (''/tge/e0000000/sub'', 1)]"

definition last_session_status :: "esp_mqtt_event list \<Rightarrow> bool option" where
  "last_session_status evs =
    (let st = filter (\<lambda>e. is_session_status (ev_id e)) evs
     in if st = [] then None else Some (ev_id (last st) = MQTT_EVENT_CONNECTED))"

text \<open>The calls one event makes, as a function of the event alone.\<close>

definition mqtt_calls :: "esp_mqtt_event \<Rightarrow> call list" where
  "mqtt_calls event =
    (case ev_id event of
       MQTT_EVENT_CONNECTED \<Rightarrow> map (\<lambda>(t, q). Mqtt_subscribe (Some (ev_client event)) t q) subscription_set
     | MQTT_EVENT_DATA \<Rightarrow>
         [Printf (''TOPIC='' @ printf_view (ev_topic_len event) (ev_topic event) @ crlf),
          Printf (''DATA='' @ printf_view (ev_data_len event) (ev_data event) @ crlf)]
     | _ \<Rightarrow> [])"

text \<open>An event with no payload, as the library raises for connect and disconnect.\<close>

definition simple_event :: "esp_mqtt_event_id \<Rightarrow> handle \<Rightarrow> esp_mqtt_event" where
  "simple_event i h = \<lparr>ev_id = i, ev_client = h, ev_msg_id = 0, ev_topic = [], ev_topic_len = 0,
                         ev_data = [], ev_data_len = 0\<rparr>"

subsection \<open>Behaviour of one event\<close>

lemma mqtt_handler_calls [firmware_simps]:
  "calls (mqtt_event_handler e g) = calls g @ mqtt_calls e"
  by (cases "ev_id e")
     (simp_all add: mqtt_event_handler_def mqtt_calls_def subscription_set_def Let_def)

lemma mqtt_handler_frame [simp, firmware_simps]:
  "client (mqtt_event_handler e g) = client g"
  "next_handle (mqtt_event_handler e g) = next_handle g"
  by (cases "ev_id e"; simp add: mqtt_event_handler_def Let_def)+

lemma mqtt_handler_flag:
  "mqtt_connected (mqtt_event_handler e g) =
    (case ev_id e of
       MQTT_EVENT_CONNECTED \<Rightarrow> 1
     | MQTT_EVENT_DISCONNECTED \<Rightarrow> 0
     | _ \<Rightarrow> mqtt_connected g)"
  by (cases "ev_id e") (simp_all add: mqtt_event_handler_def Let_def)

lemma mqtt_handler_flag01 [intro]:
  "flag01 (mqtt_connected g) \<Longrightarrow> flag01 (mqtt_connected (mqtt_event_handler e g))"
  by (cases "ev_id e") (simp_all add: mqtt_handler_flag)

lemma mqtt_handler_started [simp]:
  "is_started (mqtt_event_handler e g) h \<longleftrightarrow> is_started g h"
  by (cases "ev_id e") (auto simp: is_started_def mqtt_handler_calls mqtt_calls_def
                                  subscription_set_def)

text \<open>
  \<open>printf_view\<close> meets the specification \<open>printed_view\<close>, and is the only string
  that does: the specification determines what is printed.
\<close>

lemma printf_view_spec:
  assumes "0 \<le> len"
  shows "printed_view len s (printf_view len s)"
proof -
  let ?xs = "take (nat len) s"
  let ?v = "takeWhile (\<lambda>c. c \<noteq> CHR 0x00) ?xs"
  from assms have v: "printf_view len s = ?v" by (simp add: printf_view_def)
  have len: "length ?v \<le> length ?xs" by (rule length_takeWhile_le)
  then have bound: "length ?v \<le> nat len" by simp
  have eq1: "?v = take (length ?v) ?xs" by (rule takeWhile_eq_take)
  from bound have "take (length ?v) ?xs = take (length ?v) s"
    by (simp only: take_take min_absorb1)
  with eq1 have pre: "take (length ?v) s = ?v" by simp
  have nul: "CHR 0x00 \<notin> set ?v" by (blast dest: set_takeWhileD)
  have stop: "length ?v = min (nat len) (length s) \<or> s ! length ?v = CHR 0x00"
  proof (cases "length ?v < length ?xs")
    case True
    then have "\<not> (?xs ! length ?v \<noteq> CHR 0x00)" by (rule nth_length_takeWhile)
    moreover from True have "?xs ! length ?v = s ! length ?v" by simp
    ultimately show ?thesis by simp
  next
    case False
    with len have "length ?v = length ?xs" by linarith
    then show ?thesis by (simp add: min.commute)
  qed
  from bound pre nul stop show ?thesis by (simp add: printed_view_def v)
qed

lemma printed_view_unique:
  assumes "0 \<le> len" and "printed_view len s v"
  shows "v = printf_view len s"
proof -
  let ?xs = "take (nat len) s"
  from assms(2) have b: "length v \<le> nat len" and p: "take (length v) s = v"
    and n: "CHR 0x00 \<notin> set v" and st: "length v = min (nat len) (length s) \<or> s ! length v = CHR 0x00"
    by (simp_all add: printed_view_def)
  from p have "length (take (length v) s) = length v" by simp
  then have ls: "length v \<le> length s" by simp
  from b p have "take (length v) ?xs = v" by (simp add: min_absorb1)
  moreover from n have "\<forall>x\<in>set v. x \<noteq> CHR 0x00" by blast
  moreover from st b ls have "length v = length ?xs \<or> \<not> (?xs ! length v \<noteq> CHR 0x00)"
    by (cases "length v < nat len") (auto simp: min.commute)
  ultimately have "takeWhile (\<lambda>c. c \<noteq> CHR 0x00) ?xs = v" by (rule takeWhile_eqI)
  with assms(1) show ?thesis by (simp add: printf_view_def)
qed

subsection \<open>Properties of the session controller\<close>

text \<open>
  C2. Refinement of the health flag: after any sequence of session events,
  \<open>MQTT_CONNECTED\<close> is 1 if the last connect/disconnect event was a connect, 0 if it
  was a disconnect, and unchanged if there was none.
\<close>

theorem mqtt_flag_refines_health:
  "mqtt_connected (fold mqtt_event_handler evs g) =
    (case last_session_status evs of None \<Rightarrow> mqtt_connected g | Some b \<Rightarrow> of_bool b)"
proof (induction evs rule: rev_induct)
  case Nil
  show ?case by (simp add: last_session_status_def)
next
  case (snoc e evs)
  show ?case
  proof (cases "is_session_status (ev_id e)")
    case True
    then show ?thesis
      by (cases "ev_id e") (simp_all add: mqtt_handler_flag last_session_status_def)
  next
    case False
    then have "mqtt_connected (mqtt_event_handler e g') = mqtt_connected g'" for g'
      by (cases "ev_id e") (simp_all add: mqtt_handler_flag)
    with False snoc.IH show ?thesis
      by (simp add: last_session_status_def Let_def)
  qed
qed

text \<open>
  C3. A connect event sets \<open>MQTT_CONNECTED\<close> to 1 and issues exactly one subscribe per
  entry of the subscription set, in its order, on the session that raised the event;
  nothing else changes.
\<close>

theorem connected_subscribes:
  "ev_id e = MQTT_EVENT_CONNECTED \<Longrightarrow>
   mqtt_event_handler e g =
     g\<lparr>mqtt_connected := 1,
       calls := calls g @ map (\<lambda>(t, q). Mqtt_subscribe (Some (ev_client e)) t q) subscription_set\<rparr>"
  by (simp add: mqtt_event_handler_def subscription_set_def issue_def Let_def)

theorem connected_subscribes_witness:
  "mqtt_event_handler (simple_event MQTT_EVENT_CONNECTED 7) initial_globals =
     initial_globals\<lparr>mqtt_connected := 1,
       calls := [Mqtt_subscribe (Some 7) ''/cm/test1'' 0, Mqtt_subscribe (Some 7) ''/cm/test2'' 1,
                 Mqtt_subscribe (Some 7) ''/tge/e0000000/sub'' 1]\<rparr>"
  using connected_subscribes [of "simple_event MQTT_EVENT_CONNECTED 7" initial_globals]
  by (simp add: simple_event_def subscription_set_def initial_globals_def)

text \<open>
  C10. Over any sequence of session events, the handler issues exactly three
  subscribe calls per connect event and none for any other event.
\<close>

theorem subscribe_count_run:
  "length (filter is_subscribe (calls (fold mqtt_event_handler evs g))) =
     length (filter is_subscribe (calls g)) + 3 * length (filter (\<lambda>e. ev_id e = MQTT_EVENT_CONNECTED) evs)"
proof (induction evs arbitrary: g)
  case Nil
  show ?case by simp
next
  case (Cons e evs)
  have "length (filter is_subscribe (mqtt_calls e)) = (if ev_id e = MQTT_EVENT_CONNECTED then 3 else 0)"
    by (cases "ev_id e") (simp_all add: mqtt_calls_def subscription_set_def)
  with Cons.IH show ?case by (simp add: mqtt_handler_calls)
qed

text \<open>
  C15. Events other than connect, disconnect and data (among them \<open>MQTT_EVENT_ERROR\<close>)
  leave the whole state unchanged: they are only logged.
\<close>

theorem log_only_events:
  "\<not> is_session_status (ev_id e) \<Longrightarrow> ev_id e \<noteq> MQTT_EVENT_DATA \<Longrightarrow> mqtt_event_handler e g = g"
  by (cases "ev_id e") (simp_all add: mqtt_event_handler_def)

theorem log_only_events_witness:
  "\<not> is_session_status MQTT_EVENT_ERROR \<and> MQTT_EVENT_ERROR \<noteq> MQTT_EVENT_DATA \<and>
   mqtt_event_handler (simple_event MQTT_EVENT_ERROR 0) initial_globals = initial_globals"
  using log_only_events [of "simple_event MQTT_EVENT_ERROR 0" initial_globals]
  by (simp add: simple_event_def)

text \<open>
  C16. A data event with non-negative lengths prints exactly two lines, the topic and
  then the payload, and changes nothing else. The topic printed is the view that
  \<open>%.*s\<close> promises of the topic buffer bounded by the topic length, and the payload
  printed is that view of the payload buffer bounded by the payload length.
\<close>

theorem data_event_prints_views:
  assumes "ev_id e = MQTT_EVENT_DATA" and "0 \<le> ev_topic_len e" and "0 \<le> ev_data_len e"
  shows "\<exists>t d. mqtt_event_handler e g =
            g\<lparr>calls := calls g @ [Printf (''TOPIC='' @ t @ crlf), Printf (''DATA='' @ d @ crlf)]\<rparr> \<and>
          printed_view (ev_topic_len e) (ev_topic e) t \<and> printed_view (ev_data_len e) (ev_data e) d"
proof (intro exI conjI)
  show "mqtt_event_handler e g =
     g\<lparr>calls := calls g @ [Printf (''TOPIC='' @ printf_view (ev_topic_len e) (ev_topic e) @ crlf),
                          Printf (''DATA='' @ printf_view (ev_data_len e) (ev_data e) @ crlf)]\<rparr>"
    using assms(1) by (simp add: mqtt_event_handler_def issue_def Let_def)
  show "printed_view (ev_topic_len e) (ev_topic e) (printf_view (ev_topic_len e) (ev_topic e))"
    using assms(2) by (rule printf_view_spec)
  show "printed_view (ev_data_len e) (ev_data e) (printf_view (ev_data_len e) (ev_data e))"
    using assms(3) by (rule printf_view_spec)
qed

theorem data_event_prints_views_witness:
  "mqtt_event_handler \<lparr>ev_id = MQTT_EVENT_DATA, ev_client = 0, ev_msg_id = 0,
       ev_topic = ''ab'' @ [CHR 0x00] @ ''cd'', ev_topic_len = 4, ev_data = ''xyz'', ev_data_len = 2\<rparr>
     initial_globals =
     initial_globals\<lparr>calls := [Printf (''TOPIC='' @ ''ab'' @ crlf), Printf (''DATA='' @ ''xy'' @ crlf)]\<rparr>"
proof -
  let ?e = "\<lparr>ev_id = MQTT_EVENT_DATA, ev_client = 0, ev_msg_id = 0,
       ev_topic = ''ab'' @ [CHR 0x00] @ ''cd'', ev_topic_len = 4, ev_data = ''xyz'', ev_data_len = 2\<rparr>"
  have "ev_id ?e = MQTT_EVENT_DATA" "0 \<le> ev_topic_len ?e" "0 \<le> ev_data_len ?e" by simp_all
  from data_event_prints_views [OF this, of initial_globals] obtain t d where
    h: "mqtt_event_handler ?e initial_globals =
          initial_globals\<lparr>calls := calls initial_globals @ [Printf (''TOPIC='' @ t @ crlf), Printf (''DATA='' @ d @ crlf)]\<rparr>"
    and pt: "printed_view 4 (''ab'' @ [CHR 0x00] @ ''cd'') t" and pd: "printed_view 2 ''xyz'' d"
    by auto
  from printed_view_unique [OF _ pt] have "t = ''ab''" by (simp add: printf_view_def)
  moreover from printed_view_unique [OF _ pd] have "d = ''xy''" by (simp add: printf_view_def)
  ultimately show ?thesis using h by (simp add: initial_globals_def)
qed



end
