(* ===== verification/Mqtt_Start.thy ===== *)
theory Mqtt_Start
  imports Firmware_State
begin

text \<open>
  Session startup: \<open>mqtt_app_start\<close> (main.c lines 167-182). It creates a client
  for the fixed broker URI with \<open>esp_mqtt_client_init\<close>, stores the handle in the
  global \<open>client\<close> (overwriting any previous one), registers
  \<open>mqtt_event_handler\<close> for every event of that client and starts it. None of the
  three library results is checked. The library's \<open>esp_mqtt_client_init\<close> is
  modelled from its interface: it hands out a fresh handle, or \<open>NULL\<close> when the
  allocation fails; which of the two happens is the argument \<open>alloc_ok\<close>.
\<close>

definition broker_uri :: string where
  "broker_uri = ''mqtt://broker.hivemq.com:1883''"

definition esp_mqtt_client_init :: "string \<Rightarrow> bool \<Rightarrow> globals \<Rightarrow> handle option \<times> globals" where
  "esp_mqtt_client_init uri alloc_ok g =
    (let g1 = issue (Mqtt_client_init uri) g
     in if alloc_ok then (Some (next_handle g), g1\<lparr>next_handle := Suc (next_handle g)\<rparr>)
        else (None, g1))"

definition mqtt_app_start :: "bool \<Rightarrow> globals \<Rightarrow> globals" where
  "mqtt_app_start alloc_ok g =
    (let (h, g1) = esp_mqtt_client_init broker_uri alloc_ok g;
         g2 = g1\<lparr>client := h\<rparr>;
         g3 = issue (Mqtt_register_event h) g2
     in issue (Mqtt_client_start h) g3)"

text \<open>The handle the library returns for one call.\<close>

definition new_handle :: "bool \<Rightarrow> globals \<Rightarrow> handle option" where
  "new_handle alloc_ok g = (if alloc_ok then Some (next_handle g) else None)"

lemma mqtt_app_start_fields [firmware_simps]:
  "mqtt_connected (mqtt_app_start ok g) = mqtt_connected g"
  "client (mqtt_app_start ok g) = new_handle ok g"
  "next_handle (mqtt_app_start ok g) = (if ok then Suc (next_handle g) else next_handle g)"
  "calls (mqtt_app_start ok g) =
     calls g @ [Mqtt_client_init broker_uri, Mqtt_register_event (new_handle ok g),
                Mqtt_client_start (new_handle ok g)]"
  by (simp_all add: mqtt_app_start_def esp_mqtt_client_init_def new_handle_def issue_def Let_def)

lemma mqtt_app_start_started [simp]:
  "is_started (mqtt_app_start ok g) h \<longleftrightarrow> is_started g h \<or> new_handle ok g = Some h"
  by (auto simp: is_started_def mqtt_app_start_fields)

lemma new_handle_fresh:
  "new_handle ok g = Some h \<Longrightarrow> h = next_handle g"
  by (simp add: new_handle_def split: if_splits)

end
