(* ===== verification/Wifi_Handler.thy ===== *)
theory Wifi_Handler
  imports Mqtt_Start
begin

text \<open>
  The link monitor: \<open>event_handler\<close> (main.c lines 34-65), registered with the
  legacy system event loop by \<open>wifi_init\<close>. On station start and on disconnect it
  asks the driver to connect (unbounded immediate retry); on connect it only logs; on
  address acquisition it calls \<open>mqtt_app_start\<close>, with no guard against an earlier
  start; every other event is ignored. It keeps no link state of its own and always
  returns \<open>ESP_OK\<close>. The argument \<open>alloc_ok\<close> is the MQTT library's allocation
  outcome should the handler start a session.
\<close>

datatype system_event_id =
    SYSTEM_EVENT_WIFI_READY
  | SYSTEM_EVENT_SCAN_DONE
  | SYSTEM_EVENT_STA_START
  | SYSTEM_EVENT_STA_STOP
  | SYSTEM_EVENT_STA_CONNECTED
  | SYSTEM_EVENT_STA_DISCONNECTED
  | SYSTEM_EVENT_STA_AUTHMODE_CHANGE
  | SYSTEM_EVENT_STA_GOT_IP
  | SYSTEM_EVENT_STA_LOST_IP
  | SYSTEM_EVENT_OTHER nat

definition event_handler :: "system_event_id \<Rightarrow> bool \<Rightarrow> globals \<Rightarrow> esp_err \<times> globals" where
  "event_handler event alloc_ok g =
    (case event of
       SYSTEM_EVENT_STA_START \<Rightarrow> (ESP_OK, issue Esp_wifi_connect g)
     | SYSTEM_EVENT_STA_CONNECTED \<Rightarrow> (ESP_OK, g)
     | SYSTEM_EVENT_STA_GOT_IP \<Rightarrow> (ESP_OK, mqtt_app_start alloc_ok g)
     | SYSTEM_EVENT_STA_DISCONNECTED \<Rightarrow> (ESP_OK, issue Esp_wifi_connect g)
     | _ \<Rightarrow> (ESP_OK, g))"

text \<open>
  The event loop delivers link events one at a time; a sequence of them, each with
  the allocation outcome of its startup call, runs the handler in order.
\<close>

fun wifi_run :: "(system_event_id \<times> bool) list \<Rightarrow> globals \<Rightarrow> globals" where
  "wifi_run [] g = g"
| "wifi_run ((e, ok) # es) g = wifi_run es (snd (event_handler e ok g))"

fun is_reconnect_trigger :: "system_event_id \<Rightarrow> bool" where
  "is_reconnect_trigger SYSTEM_EVENT_STA_START = True"
| "is_reconnect_trigger SYSTEM_EVENT_STA_DISCONNECTED = True"
| "is_reconnect_trigger _ = False"

lemma event_handler_calls:
  "calls (snd (event_handler e ok g)) =
    calls g @ (if is_reconnect_trigger e then [Esp_wifi_connect]
               else if e = SYSTEM_EVENT_STA_GOT_IP then
                 [Mqtt_client_init broker_uri, Mqtt_register_event (new_handle ok g),
                  Mqtt_client_start (new_handle ok g)]
               else [])"
  by (cases e) (simp_all add: event_handler_def mqtt_app_start_fields)

lemma event_handler_flag [simp]:
  "mqtt_connected (snd (event_handler e ok g)) = mqtt_connected g"
  by (cases e) (simp_all add: event_handler_def mqtt_app_start_fields)

lemma event_handler_client:
  "client (snd (event_handler e ok g)) =
    (if e = SYSTEM_EVENT_STA_GOT_IP then new_handle ok g else client g)"
  by (cases e) (simp_all add: event_handler_def mqtt_app_start_fields)

lemma event_handler_next_handle:
  "next_handle (snd (event_handler e ok g)) =
    (if e = SYSTEM_EVENT_STA_GOT_IP \<and> ok then Suc (next_handle g) else next_handle g)"
  by (cases e) (simp_all add: event_handler_def mqtt_app_start_fields)

lemma event_handler_started [simp]:
  "is_started (snd (event_handler e ok g)) h \<longleftrightarrow>
    is_started g h \<or> (e = SYSTEM_EVENT_STA_GOT_IP \<and> new_handle ok g = Some h)"
  by (cases e) (simp_all add: event_handler_def)

lemma wifi_run_calls_count:
  assumes "\<And>e ok g. length (filter P (calls (snd (event_handler e ok g)))) =
             length (filter P (calls g)) + (if Q e then 1 else 0)"
  shows "length (filter P (calls (wifi_run evs g))) =
           length (filter P (calls g)) + length (filter (\<lambda>(e, ok). Q e) evs)"
  using assms by (induction evs g rule: wifi_run.induct) simp_all

subsection \<open>Properties of the link monitor\<close>

text \<open>
  C7. Reconnection policy: over any sequence of link events the handler issues exactly
  one \<open>esp_wifi_connect\<close> per station-start or disconnect event, and none for any
  other event.
\<close>

theorem wifi_connect_per_trigger:
  "length (filter is_wifi_connect (calls (wifi_run evs g))) =
     length (filter is_wifi_connect (calls g)) +
     length (filter (\<lambda>(e, ok). is_reconnect_trigger e) evs)"
proof (rule wifi_run_calls_count)
  fix e ok g
  show "length (filter is_wifi_connect (calls (snd (event_handler e ok g)))) =
          length (filter is_wifi_connect (calls g)) + (if is_reconnect_trigger e then 1 else 0)"
    by (cases e) (simp_all add: event_handler_calls)
qed

text \<open>
  C9. Session startup is not guarded: over any sequence of link events, every
  address-acquired event creates a new MQTT client, however many were created before.
\<close>

theorem client_init_per_got_ip:
  "length (filter is_client_init (calls (wifi_run evs g))) =
     length (filter is_client_init (calls g)) +
     length (filter (\<lambda>(e, ok). e = SYSTEM_EVENT_STA_GOT_IP) evs)"
proof (rule wifi_run_calls_count)
  fix e ok g
  show "length (filter is_client_init (calls (snd (event_handler e ok g)))) =
          length (filter is_client_init (calls g)) + (if e = SYSTEM_EVENT_STA_GOT_IP then 1 else 0)"
    by (cases e) (simp_all add: event_handler_calls)
qed

text \<open>
  C20. The link handler always returns \<open>ESP_OK\<close> and never changes the health flag.
\<close>

theorem event_handler_returns_ok:
  "fst (event_handler e ok g) = ESP_OK \<and> mqtt_connected (snd (event_handler e ok g)) = mqtt_connected g"
  by (cases e) (simp_all add: event_handler_def mqtt_app_start_fields)

end
