(* ===== verification/Publisher.thy ===== *)
theory Publisher
  imports Firmware_State
begin

text \<open>
  The producer loop: \<open>Publisher_Task\<close> (main.c lines 185-198), a FreeRTOS task
  that never returns. Its body is modelled as one step per atomic action of the task,
  with the task's position as a program counter: at \<open>Pub_Loop\<close> it reads
  \<open>MQTT_CONNECTED\<close>; when the flag is set it moves to \<open>Pub_Publish\<close>, where it
  reads the global \<open>client\<close> and calls \<open>esp_mqtt_client_publish\<close>, then blocks in
  \<open>vTaskDelay\<close> for \<open>d\<close> ticks (\<open>Pub_Delay\<close> counts the ticks still to wait);
  when the flag is clear it goes straight back to the test, with no delay. Reading the
  flag and reading the client are separate steps, so the rest of the system can act
  between them. The tick count \<open>d\<close> is the argument of \<open>vTaskDelay\<close>, the C
  expression \<open>15000 / portTICK_PERIOD_MS\<close> fixed at build time (1500 ticks with the
  ESP-IDF default period of 10 ms). It is a parameter of the step function and of
  every lemma here, so the results hold for every tick period.
\<close>

datatype pub_pc = Pub_Loop | Pub_Publish | Pub_Delay nat

definition pub_topic :: string where
  "pub_topic = ''/cm/test3''"

text \<open>The payload is UTF-8: the letter o with circumflex is the two bytes C3 B4.\<close>

definition pub_payload :: string where
  "pub_payload = ''Message du microcontr'' @ [CHR 0xC3, CHR 0xB4] @ ''leur''"

definition publish_call :: "globals \<Rightarrow> call" where
  "publish_call g = Mqtt_publish (client g) pub_topic pub_payload 0 0 0"

fun publisher_step :: "nat \<Rightarrow> pub_pc \<times> globals \<Rightarrow> pub_pc \<times> globals" where
  "publisher_step d (Pub_Loop, g) =
     (if mqtt_connected g \<noteq> 0 then (Pub_Publish, g) else (Pub_Loop, g))"
| "publisher_step d (Pub_Publish, g) = (Pub_Delay d, issue (publish_call g) g)"
| "publisher_step d (Pub_Delay 0, g) = (Pub_Loop, g)"
| "publisher_step d (Pub_Delay (Suc n), g) = (Pub_Delay n, g)"

text \<open>A delay never exceeds the one the task was started with.\<close>

fun pc_bounded :: "nat \<Rightarrow> pub_pc \<Rightarrow> bool" where
  "pc_bounded d (Pub_Delay n) = (n \<le> d)"
| "pc_bounded d _ = True"

subsection \<open>Lemmas on the loop\<close>

lemma publisher_step_frame [simp]:
  "mqtt_connected (snd (publisher_step d (p, g))) = mqtt_connected g"
  "client (snd (publisher_step d (p, g))) = client g"
  "next_handle (snd (publisher_step d (p, g))) = next_handle g"
  by (cases "(d, (p, g))" rule: publisher_step.cases; simp)+

lemma publisher_step_calls:
  "calls (snd (publisher_step d (p, g))) =
     calls g @ (if p = Pub_Publish then [publish_call g] else [])"
  by (cases "(d, (p, g))" rule: publisher_step.cases) simp_all

lemma publisher_step_bounded [intro]:
  "pc_bounded d p \<Longrightarrow> pc_bounded d (fst (publisher_step d (p, g)))"
  by (cases "(d, (p, g))" rule: publisher_step.cases) simp_all

lemma delay_countdown:
  "(publisher_step d ^^ k) (Pub_Delay (k + n), g) = (Pub_Delay n, g)"
proof (induction k arbitrary: n)
  case 0
  show ?case by simp
next
  case (Suc k)
  have "(publisher_step d ^^ Suc k) (Pub_Delay (Suc k + n), g) =
        (publisher_step d ^^ k) (publisher_step d (Pub_Delay (Suc (k + n)), g))"
    by (simp add: funpow_Suc_right del: funpow.simps)
  also have "\<dots> = (Pub_Delay n, g)" using Suc.IH by simp
  finally show ?case .
qed

lemma delay_expires [simp]:
  "publisher_step d ((publisher_step d ^^ n) (Pub_Delay n, g)) = (Pub_Loop, g)"
  using delay_countdown [where d = d and k = n and n = 0 and g = g] by simp

lemma publish_within:
  assumes "mqtt_connected g \<noteq> 0" and "pc_bounded d p"
  shows "\<exists>k \<le> d + 3. calls (snd ((publisher_step d ^^ k) (p, g))) = calls g @ [publish_call g]"
proof (cases p)
  case Pub_Loop
  with assms(1) have "(publisher_step d ^^ 2) (p, g) = (Pub_Delay d, issue (publish_call g) g)"
    by (simp add: numeral_2_eq_2)
  then show ?thesis by (intro exI [of _ 2]) simp
next
  case Pub_Publish
  then show ?thesis by (intro exI [of _ 1]) simp
next
  case (Pub_Delay n)
  with assms(2) have "n \<le> d" by simp
  have "(publisher_step d ^^ (2 + Suc n)) (p, g) =
        (publisher_step d ^^ 2) ((publisher_step d ^^ Suc n) (Pub_Delay n, g))"
    by (simp only: Pub_Delay funpow_add comp_apply)
  also have "\<dots> = (Pub_Delay d, issue (publish_call g) g)"
    using assms(1) by (simp add: delay_expires numeral_2_eq_2)
  finally show ?thesis using \<open>n \<le> d\<close> by (intro exI [of _ "2 + Suc n"]) simp
qed

subsection \<open>Properties of the producer loop\<close>

text \<open>
  C4. With the flag set at the test, one iteration issues exactly one publish of the
  fixed topic and payload on the current client and then waits \<open>d\<close> ticks
  (\<open>d + 1\<close> steps) before the flag is tested again.
\<close>

theorem publish_when_connected:
  "mqtt_connected g \<noteq> 0 \<Longrightarrow>
   (publisher_step d ^^ 2) (Pub_Loop, g) = (Pub_Delay d, issue (publish_call g) g) \<and>
   (publisher_step d ^^ Suc d) (Pub_Delay d, issue (publish_call g) g) = (Pub_Loop, issue (publish_call g) g)"
  by (simp add: numeral_2_eq_2 delay_expires)

theorem publish_when_connected_witness:
  "(publisher_step 3 ^^ 2) (Pub_Loop, initial_globals\<lparr>mqtt_connected := 1, client := Some 0\<rparr>) =
     (Pub_Delay 3, initial_globals\<lparr>mqtt_connected := 1, client := Some 0,
        calls := [Mqtt_publish (Some 0) ''/cm/test3'' pub_payload 0 0 0]\<rparr>) \<and>
   (publisher_step 3 ^^ 4) (Pub_Delay 3, initial_globals\<lparr>mqtt_connected := 1, client := Some 0,
        calls := [Mqtt_publish (Some 0) ''/cm/test3'' pub_payload 0 0 0]\<rparr>) =
     (Pub_Loop, initial_globals\<lparr>mqtt_connected := 1, client := Some 0,
        calls := [Mqtt_publish (Some 0) ''/cm/test3'' pub_payload 0 0 0]\<rparr>)"
  using publish_when_connected [where g = "initial_globals\<lparr>mqtt_connected := 1, client := Some 0\<rparr>" and d = 3]
  by (simp add: publish_call_def pub_topic_def issue_def initial_globals_def numeral_eq_Suc del: funpow.simps)

text \<open>
  C5. With the flag clear, the loop never publishes and never waits: every step returns
  to the test at once, however many steps are taken (a busy spin).
\<close>

theorem idle_when_disconnected:
  "mqtt_connected g = 0 \<Longrightarrow> (publisher_step d ^^ k) (Pub_Loop, g) = (Pub_Loop, g)"
  by (induction k) simp_all

theorem idle_when_disconnected_witness:
  "(publisher_step 1500 ^^ 100) (Pub_Loop, initial_globals) = (Pub_Loop, initial_globals)"
  using idle_when_disconnected [where g = initial_globals and d = 1500 and k = 100] by (simp add: initial_globals_def)

text \<open>
  C6. Resumption: while the flag stays set, the task publishes within \<open>d + 3\<close> of its
  own steps from any position of its loop, so publishing resumes within one interval.
\<close>

theorem publish_resumes:
  assumes "mqtt_connected g \<noteq> 0" and "pc_bounded d p"
  shows "\<exists>k \<le> d + 3. calls (snd ((publisher_step d ^^ k) (p, g))) = calls g @ [publish_call g]"
  using assms by (rule publish_within)

theorem publish_resumes_witness:
  "\<exists>k \<le> 1500 + 3. calls (snd ((publisher_step 1500 ^^ k)
      (Pub_Delay 1500, initial_globals\<lparr>mqtt_connected := 1\<rparr>))) =
    [publish_call (initial_globals\<lparr>mqtt_connected := 1\<rparr>)]"
  using publish_resumes [of "initial_globals\<lparr>mqtt_connected := 1\<rparr>" 1500 "Pub_Delay 1500"]
  by (simp add: initial_globals_def)

end
