(* ===== verification/System.thy ===== *)
theory System
  imports Mqtt_Handler Wifi_Handler Publisher
begin

text \<open>
  The running firmware as one transition system. After \<open>app_main\<close> returns, three
  execution contexts share \<open>MQTT_CONNECTED\<close> and \<open>client\<close>: the system event loop
  runs \<open>event_handler\<close> for each link event, the MQTT task of each started client
  runs \<open>mqtt_event_handler\<close> for each event of its session, and
  \<open>Publisher_Task\<close> runs its loop. A step is one handler invocation or one
  publisher step, in any order: the relation \<open>sys_step\<close> has one rule per context,
  and \<open>reachable\<close> closes the initial state under it. A handler runs as one step
  because it writes at most one shared variable (the flag, or the client pointer),
  and the publisher's reads of the flag and of the client are separate steps, so
  every interleaving of shared-variable accesses is a sequence of steps. Events come
  only from sessions that were started; link events may come in any order.
  \<open>sys_apply\<close> is the same relation as an executable function, one action at a time.
\<close>

record sys =
  glob :: globals
  pc :: pub_pc

definition initial_sys :: sys where
  "initial_sys = \<lparr>glob = initial_globals, pc = Pub_Loop\<rparr>"

datatype action =
    Link_event system_event_id bool
  | Session_event esp_mqtt_event
  | Publisher_step

fun sys_apply :: "nat \<Rightarrow> action \<Rightarrow> sys \<Rightarrow> sys option" where
  "sys_apply d (Link_event e ok) s = Some (s\<lparr>glob := snd (event_handler e ok (glob s))\<rparr>)"
| "sys_apply d (Session_event ev) s =
     (if is_started (glob s) (ev_client ev)
      then Some (s\<lparr>glob := mqtt_event_handler ev (glob s)\<rparr>) else None)"
| "sys_apply d Publisher_step s =
     (case publisher_step d (pc s, glob s) of (p, g) \<Rightarrow> Some (s\<lparr>glob := g, pc := p\<rparr>))"

fun sys_exec :: "nat \<Rightarrow> action list \<Rightarrow> sys \<Rightarrow> sys option" where
  "sys_exec d [] s = Some s"
| "sys_exec d (a # as) s = (case sys_apply d a s of None \<Rightarrow> None | Some t \<Rightarrow> sys_exec d as t)"

inductive sys_step :: "nat \<Rightarrow> sys \<Rightarrow> sys \<Rightarrow> bool" where
  link: "sys_step d s (s\<lparr>glob := snd (event_handler e ok (glob s))\<rparr>)"
| session: "is_started (glob s) (ev_client ev) \<Longrightarrow>
    sys_step d s (s\<lparr>glob := mqtt_event_handler ev (glob s)\<rparr>)"
| publisher: "publisher_step d (pc s, glob s) = (p, g) \<Longrightarrow> sys_step d s (s\<lparr>glob := g, pc := p\<rparr>)"

inductive reachable :: "nat \<Rightarrow> sys \<Rightarrow> bool" where
  init: "reachable d initial_sys"
| step: "reachable d s \<Longrightarrow> sys_step d s t \<Longrightarrow> reachable d t"

subsection \<open>The invariant\<close>

text \<open>The non-NULL handle a call is made on, if any.\<close>

fun call_handle :: "call \<Rightarrow> handle option" where
  "call_handle (Mqtt_register_event (Some h)) = Some h"
| "call_handle (Mqtt_client_start (Some h)) = Some h"
| "call_handle (Mqtt_subscribe (Some h) _ _) = Some h"
| "call_handle (Mqtt_publish (Some h) _ _ _ _ _) = Some h"
| "call_handle _ = None"

fun is_session_start :: "call \<Rightarrow> bool" where
  "is_session_start (Mqtt_client_start (Some _)) = True"
| "is_session_start _ = False"

definition handle_ok :: "globals \<Rightarrow> call \<Rightarrow> bool" where
  "handle_ok g c =
    (case call_handle c of None \<Rightarrow> True | Some h \<Rightarrow> h < next_handle g \<and> is_started g h)"

text \<open>
  The invariant: the flag is a C boolean; the delay is within its bound; the global
  client, when not \<open>NULL\<close>, is a started session; a set flag was set by some started
  session; every call on a handle uses a handle the library handed out and started.
\<close>

definition sys_inv :: "nat \<Rightarrow> sys \<Rightarrow> bool" where
  "sys_inv d s \<longleftrightarrow>
     flag01 (mqtt_connected (glob s)) \<and>
     pc_bounded d (pc s) \<and>
     (case client (glob s) of None \<Rightarrow> True | Some h \<Rightarrow> is_started (glob s) h) \<and>
     (mqtt_connected (glob s) = 0 \<or> list_ex is_session_start (calls (glob s))) \<and>
     list_all (handle_ok (glob s)) (calls (glob s))"

subsection \<open>Preservation of the invariant\<close>

lemma started_below:
  "is_started g h \<Longrightarrow> list_all (handle_ok g) (calls g) \<Longrightarrow> h < next_handle g"
  by (fastforce simp: is_started_def list_all_iff handle_ok_def)

lemma handle_ok_mono:
  assumes "next_handle g \<le> next_handle g'" and "\<And>h. is_started g h \<Longrightarrow> is_started g' h"
  shows "handle_ok g c \<Longrightarrow> handle_ok g' c"
  using assms by (auto simp: handle_ok_def split: option.splits)

lemma list_all_handle_ok_mono:
  assumes "next_handle g \<le> next_handle g'" and "\<And>h. is_started g h \<Longrightarrow> is_started g' h"
  shows "list_all (handle_ok g) cs \<Longrightarrow> list_all (handle_ok g') cs"
  using handle_ok_mono [OF assms] by (simp add: list_all_iff)

lemma started_extend:
  "calls g' = calls g @ cs \<Longrightarrow> is_started g h \<Longrightarrow> is_started g' h"
  by (simp add: is_started_def)

lemma inv_extend:
  assumes inv: "sys_inv d s"
    and calls: "calls g' = calls (glob s) @ cs"
    and nx: "next_handle (glob s) \<le> next_handle g'"
    and new: "list_all (handle_ok g') cs"
    and flag: "flag01 (mqtt_connected g')"
    and st0: "mqtt_connected g' = 0 \<or> list_ex is_session_start (calls g')"
    and cl: "case client g' of None \<Rightarrow> True | Some h \<Rightarrow> is_started g' h"
    and pc: "pc_bounded d p"
  shows "sys_inv d (s\<lparr>glob := g', pc := p\<rparr>)"
proof -
  have "list_all (handle_ok g') (calls (glob s))"
    using inv by (intro list_all_handle_ok_mono [OF nx]) (auto simp: sys_inv_def intro: started_extend [OF calls])
  with new calls flag st0 cl pc show ?thesis by (simp add: sys_inv_def split: option.splits)
qed

lemma link_inv:
  assumes "sys_inv d s"
  shows "sys_inv d (s\<lparr>glob := snd (event_handler e ok (glob s)), pc := pc s\<rparr>)"
proof (rule inv_extend [OF assms event_handler_calls])
  let ?g' = "snd (event_handler e ok (glob s))"
  show "next_handle (glob s) \<le> next_handle ?g'"
    by (simp add: event_handler_next_handle)
  show "list_all (handle_ok ?g')
     (if is_reconnect_trigger e then [Esp_wifi_connect]
      else if e = SYSTEM_EVENT_STA_GOT_IP then
        [Mqtt_client_init broker_uri, Mqtt_register_event (new_handle ok (glob s)),
         Mqtt_client_start (new_handle ok (glob s))] else [])"
    by (auto simp: handle_ok_def new_handle_def event_handler_next_handle)
  show "flag01 (mqtt_connected ?g')" "mqtt_connected ?g' = 0 \<or> list_ex is_session_start (calls ?g')"
    using assms by (auto simp: sys_inv_def event_handler_calls)
  show "case client ?g' of None \<Rightarrow> True | Some h \<Rightarrow> is_started ?g' h"
    using assms by (auto simp: sys_inv_def event_handler_client split: option.splits)
  show "pc_bounded d (pc s)" using assms by (simp add: sys_inv_def)
qed

lemma session_inv:
  assumes "sys_inv d s" and "is_started (glob s) (ev_client ev)"
  shows "sys_inv d (s\<lparr>glob := mqtt_event_handler ev (glob s), pc := pc s\<rparr>)"
proof (rule inv_extend [OF assms(1) mqtt_handler_calls])
  let ?g' = "mqtt_event_handler ev (glob s)"
  have below: "ev_client ev < next_handle (glob s)"
    using assms by (auto simp: sys_inv_def intro: started_below)
  show "next_handle (glob s) \<le> next_handle ?g'" by simp
  show "list_all (handle_ok ?g') (mqtt_calls ev)"
    using assms(2) below
    by (cases "ev_id ev") (simp_all add: mqtt_calls_def subscription_set_def handle_ok_def)
  show "flag01 (mqtt_connected ?g')" using assms(1) by (auto simp: sys_inv_def)
  show "mqtt_connected ?g' = 0 \<or> list_ex is_session_start (calls ?g')"
  proof (cases "ev_id ev = MQTT_EVENT_CONNECTED")
    case True
    with assms(2) have "Mqtt_client_start (Some (ev_client ev)) \<in> set (calls ?g')"
      by (simp add: is_started_def mqtt_handler_calls)
    then show ?thesis by (intro disjI2) (force simp: list_ex_iff)
  next
    case False
    then have "mqtt_connected ?g' = 0 \<or> mqtt_connected ?g' = mqtt_connected (glob s)"
      by (cases "ev_id ev") (simp_all add: mqtt_handler_flag)
    with assms(1) show ?thesis by (auto simp: sys_inv_def mqtt_handler_calls)
  qed
  show "case client ?g' of None \<Rightarrow> True | Some h \<Rightarrow> is_started ?g' h"
    using assms(1) by (simp add: sys_inv_def split: option.splits)
  show "pc_bounded d (pc s)" using assms by (simp add: sys_inv_def)
qed

lemma publisher_inv:
  assumes inv: "sys_inv d s" and step: "publisher_step d (pc s, glob s) = (p, g)"
  shows "sys_inv d (s\<lparr>glob := g, pc := p\<rparr>)"
proof -
  have g: "mqtt_connected g = mqtt_connected (glob s)" "client g = client (glob s)"
          "next_handle g = next_handle (glob s)"
    using publisher_step_frame [where d = d and p = "pc s" and g = "glob s"] step by simp_all
  have c: "calls g = calls (glob s) @ (if pc s = Pub_Publish then [publish_call (glob s)] else [])"
    using publisher_step_calls [where d = d and p = "pc s" and g = "glob s"] step by simp
  have st: "is_started g h \<longleftrightarrow> is_started (glob s) h" for h
    using c by (auto simp: is_started_def publish_call_def)
  show ?thesis
  proof (rule inv_extend [OF inv c])
    show "next_handle (glob s) \<le> next_handle g" by (simp add: g)
    show "list_all (handle_ok g) (if pc s = Pub_Publish then [publish_call (glob s)] else [])"
      using inv by (auto simp: sys_inv_def handle_ok_def publish_call_def g st
                         intro: started_below split: option.splits)
    show "flag01 (mqtt_connected g)" using inv by (simp add: sys_inv_def g)
    show "mqtt_connected g = 0 \<or> list_ex is_session_start (calls g)"
      using inv by (auto simp: sys_inv_def g c)
    show "case client g of None \<Rightarrow> True | Some h \<Rightarrow> is_started g h"
      using inv by (simp add: sys_inv_def g st split: option.splits)
    show "pc_bounded d p"
      using publisher_step_bounded [where d = d and p = "pc s" and g = "glob s"] inv step by (simp add: sys_inv_def)
  qed
qed

lemma sys_step_inv: "sys_step d s t \<Longrightarrow> sys_inv d s \<Longrightarrow> sys_inv d t"
proof (induction rule: sys_step.induct)
  case (link d s e ok)
  then show ?case using link_inv [of d s e ok] by simp
next
  case (session s ev d)
  then show ?case using session_inv [of d s ev] by simp
next
  case (publisher d s p g)
  then show ?case by (rule publisher_inv [rotated])
qed

lemma initial_sys_inv: "sys_inv d initial_sys"
  by (simp add: sys_inv_def initial_sys_def initial_globals_def)

lemma invariant_holds: "reachable d s \<Longrightarrow> sys_inv d s"
proof (induction rule: reachable.induct)
  case init
  show ?case by (rule initial_sys_inv)
next
  case (step s t)
  then show ?case by (blast intro: sys_step_inv)
qed


lemmas sys_eval_simps = event_handler_def mqtt_app_start_def esp_mqtt_client_init_def
  mqtt_event_handler_def simple_event_def initial_sys_def initial_globals_def issue_def
  is_started_def publish_call_def Let_def

lemma sys_apply_step: "sys_apply d a s = Some t \<Longrightarrow> sys_step d s t"
  by (cases a) (auto intro: sys_step.intros split: if_splits prod.splits)

lemma sys_step_iff_apply: "sys_step d s t \<longleftrightarrow> (\<exists>a. sys_apply d a s = Some t)"
proof
  assume "sys_step d s t"
  then show "\<exists>a. sys_apply d a s = Some t"
  proof (induction rule: sys_step.induct)
    case (link d s e ok)
    show ?case by (rule exI [of _ "Link_event e ok"]) simp
  next
    case (session s ev d)
    then show ?case by (intro exI [of _ "Session_event ev"]) simp
  next
    case (publisher d s p g)
    then show ?case by (intro exI [of _ Publisher_step]) simp
  qed
next
  assume "\<exists>a. sys_apply d a s = Some t"
  then show "sys_step d s t" by (blast intro: sys_apply_step)
qed

lemma sys_exec_reachable:
  "reachable d s \<Longrightarrow> sys_exec d as s = Some t \<Longrightarrow> reachable d t"
proof (induction as arbitrary: s)
  case Nil
  then show ?case by simp
next
  case (Cons a as)
  then obtain u where u: "sys_apply d a s = Some u" and rest: "sys_exec d as u = Some t"
    by (auto split: option.splits)
  from Cons.prems(1) sys_apply_step [OF u] have "reachable d u" by (rule reachable.step)
  from this rest show ?case by (rule Cons.IH)
qed

lemma sys_exec_publisher:
  "sys_exec d (replicate k Publisher_step) s =
     Some \<lparr>glob = snd ((publisher_step d ^^ k) (pc s, glob s)),
           pc = fst ((publisher_step d ^^ k) (pc s, glob s))\<rparr>"
proof (induction k arbitrary: s)
  case 0
  show ?case by simp
next
  case (Suc k)
  obtain p g where pg: "publisher_step d (pc s, glob s) = (p, g)" by fastforce
  have "sys_exec d (replicate (Suc k) Publisher_step) s =
        sys_exec d (replicate k Publisher_step) (s\<lparr>glob := g, pc := p\<rparr>)"
    by (simp add: pg)
  also have "\<dots> = Some \<lparr>glob = snd ((publisher_step d ^^ k) (p, g)),
                         pc = fst ((publisher_step d ^^ k) (p, g))\<rparr>"
    by (simp add: Suc.IH)
  also have "(publisher_step d ^^ k) (p, g) = (publisher_step d ^^ Suc k) (pc s, glob s)"
    by (simp add: funpow_Suc_right pg del: funpow.simps)
  finally show ?case .
qed

subsection \<open>Properties of the running firmware\<close>




text \<open>
  C8. Check-then-act race: there is a reachable state in which the flag is 0 and the
  next step of the system is a publish on the session, because the session disconnected
  between the publisher's test of the flag and its call.
\<close>

theorem publish_after_disconnect:
  "\<exists>s t. reachable d s \<and> mqtt_connected (glob s) = 0 \<and> sys_step d s t \<and>
     calls (glob t) = calls (glob s) @ [Mqtt_publish (Some 0) pub_topic pub_payload 0 0 0]"
proof -
  let ?as = "[Link_event SYSTEM_EVENT_STA_START True, Link_event SYSTEM_EVENT_STA_GOT_IP True,
              Session_event (simple_event MQTT_EVENT_CONNECTED 0), Publisher_step,
              Session_event (simple_event MQTT_EVENT_DISCONNECTED 0)]"
  let ?g = "\<lparr>mqtt_connected = 0, client = Some 0, next_handle = 1,
              calls = [Esp_wifi_connect, Mqtt_client_init broker_uri, Mqtt_register_event (Some 0),
                       Mqtt_client_start (Some 0), Mqtt_subscribe (Some 0) ''/cm/test1'' 0,
                       Mqtt_subscribe (Some 0) ''/cm/test2'' 1,
                       Mqtt_subscribe (Some 0) ''/tge/e0000000/sub'' 1]\<rparr>"
  let ?s = "\<lparr>glob = ?g, pc = Pub_Publish\<rparr>"
  have "sys_exec d ?as initial_sys = Some ?s"
    by (simp add: sys_eval_simps)
  with reachable.init have "reachable d ?s" by (rule sys_exec_reachable)
  moreover have "sys_step d ?s (?s\<lparr>glob := issue (publish_call ?g) ?g, pc := Pub_Delay d\<rparr>)"
    by (rule sys_step.publisher) simp
  ultimately show ?thesis
    by (intro exI [of _ ?s] exI [of _ "?s\<lparr>glob := issue (publish_call ?g) ?g, pc := Pub_Delay d\<rparr>"])
       (simp add: publish_call_def issue_def)
qed

text \<open>
  C19. Reachable publish on a NULL client: when a re-acquired address starts a new
  session whose allocation fails, the global client becomes NULL while the flag set
  by the earlier session is still 1, and the publisher calls publish with NULL.
\<close>

theorem publish_null_client:
  "\<exists>s t. reachable d s \<and> mqtt_connected (glob s) \<noteq> 0 \<and> client (glob s) = None \<and>
     sys_step d s t \<and> calls (glob t) = calls (glob s) @ [Mqtt_publish None pub_topic pub_payload 0 0 0]"
proof -
  let ?as = "[Link_event SYSTEM_EVENT_STA_START True, Link_event SYSTEM_EVENT_STA_GOT_IP True,
              Session_event (simple_event MQTT_EVENT_CONNECTED 0),
              Link_event SYSTEM_EVENT_STA_GOT_IP False, Publisher_step]"
  let ?g = "\<lparr>mqtt_connected = 1, client = None, next_handle = 1,
              calls = [Esp_wifi_connect, Mqtt_client_init broker_uri, Mqtt_register_event (Some 0),
                       Mqtt_client_start (Some 0), Mqtt_subscribe (Some 0) ''/cm/test1'' 0,
                       Mqtt_subscribe (Some 0) ''/cm/test2'' 1,
                       Mqtt_subscribe (Some 0) ''/tge/e0000000/sub'' 1,
                       Mqtt_client_init broker_uri, Mqtt_register_event None,
                       Mqtt_client_start None]\<rparr>"
  let ?s = "\<lparr>glob = ?g, pc = Pub_Publish\<rparr>"
  have "sys_exec d ?as initial_sys = Some ?s"
    by (simp add: sys_eval_simps)
  with reachable.init have "reachable d ?s" by (rule sys_exec_reachable)
  moreover have "sys_step d ?s (?s\<lparr>glob := issue (publish_call ?g) ?g, pc := Pub_Delay d\<rparr>)"
    by (rule sys_step.publisher) simp
  ultimately show ?thesis
    by (intro exI [of _ ?s] exI [of _ "?s\<lparr>glob := issue (publish_call ?g) ?g, pc := Pub_Delay d\<rparr>"])
       (simp add: publish_call_def issue_def)
qed


end
