(* ===== verification/Boot.thy ===== *)
theory Boot
  imports Firmware_State
begin

text \<open>
  The boot sequence: \<open>app_main\<close> (main.c lines 201-216) and \<open>wifi_init\<close>
  (lines 68-97). Every platform call is recorded in a boot trace, and its result comes
  from a record \<open>platform\<close> that fixes what the platform returns to each call.
  \<open>ESP_ERROR_CHECK(x)\<close> aborts the program when \<open>x\<close> is not \<open>ESP_OK\<close>: that is the
  error value \<open>Abort\<close>, holding the calls made up to and including the failing one
  and the code it returned. \<open>app_main\<close> initialises NVS, erasing it and trying
  again when the partition is full or from a newer version, then runs
  \<open>wifi_init\<close>, which registers \<open>event_handler\<close> and starts the Wi-Fi driver, and
  finally creates \<open>Publisher_Task\<close> (stack 1024 * 5 bytes, priority 5). The results
  of \<open>esp_netif_create_default_wifi_sta\<close> and \<open>xTaskCreate\<close> are not checked.
\<close>

datatype boot_call =
    Nvs_flash_init
  | Nvs_flash_erase
  | Esp_netif_init
  | Esp_event_loop_create_default
  | Esp_netif_create_default_wifi_sta
  | Esp_wifi_init
  | Esp_event_loop_init
  | Esp_wifi_set_mode
  | Esp_wifi_set_config string string
  | Esp_wifi_start
  | XTaskCreate string nat nat

record platform =
  nvs_init_first :: esp_err
  nvs_init_second :: esp_err
  nvs_erase_res :: esp_err
  netif_init_res :: esp_err
  loop_create_res :: esp_err
  wifi_init_res :: esp_err
  loop_init_res :: esp_err
  set_mode_res :: esp_err
  set_config_res :: esp_err
  wifi_start_res :: esp_err

datatype boot_abort = Abort "boot_call list" esp_err

type_synonym boot_res = "boot_abort + boot_call list"

text \<open>The two NVS codes that make \<open>app_main\<close> erase the partition (nvs.h).\<close>

definition ESP_ERR_NVS_NO_FREE_PAGES :: esp_err where
  "ESP_ERR_NVS_NO_FREE_PAGES = 0x110d"

definition ESP_ERR_NVS_NEW_VERSION_FOUND :: esp_err where
  "ESP_ERR_NVS_NEW_VERSION_FOUND = 0x1110"

definition esp_error_check :: "boot_call \<Rightarrow> esp_err \<Rightarrow> boot_call list \<Rightarrow> boot_res" where
  "esp_error_check c r tr = (if r = ESP_OK then Inr (tr @ [c]) else Inl (Abort (tr @ [c]) r))"

definition boot_bind :: "boot_res \<Rightarrow> (boot_call list \<Rightarrow> boot_res) \<Rightarrow> boot_res" where
  "boot_bind m f = (case m of Inl a \<Rightarrow> Inl a | Inr tr \<Rightarrow> f tr)"

definition wifi_init :: "platform \<Rightarrow> boot_call list \<Rightarrow> boot_res" where
  "wifi_init p tr0 =
    boot_bind (esp_error_check Esp_netif_init (netif_init_res p) tr0) (\<lambda>tr1.
    boot_bind (esp_error_check Esp_event_loop_create_default (loop_create_res p) tr1) (\<lambda>tr2.
    (let tr3 = tr2 @ [Esp_netif_create_default_wifi_sta] in
    boot_bind (esp_error_check Esp_wifi_init (wifi_init_res p) tr3) (\<lambda>tr4.
    boot_bind (esp_error_check Esp_event_loop_init (loop_init_res p) tr4) (\<lambda>tr5.
    boot_bind (esp_error_check Esp_wifi_set_mode (set_mode_res p) tr5) (\<lambda>tr6.
    boot_bind (esp_error_check (Esp_wifi_set_config ''iphone'' ''boriasse'') (set_config_res p) tr6)
      (\<lambda>tr7. esp_error_check Esp_wifi_start (wifi_start_res p) tr7)))))))"

definition nvs_phase :: "platform \<Rightarrow> boot_res" where
  "nvs_phase p =
    (let ret = nvs_init_first p in
     if ret = ESP_ERR_NVS_NO_FREE_PAGES \<or> ret = ESP_ERR_NVS_NEW_VERSION_FOUND
     then boot_bind (esp_error_check Nvs_flash_erase (nvs_erase_res p) [Nvs_flash_init])
            (\<lambda>tr. esp_error_check Nvs_flash_init (nvs_init_second p) tr)
     else esp_error_check Nvs_flash_init ret [])"

definition app_main :: "platform \<Rightarrow> boot_res" where
  "app_main p =
    boot_bind (nvs_phase p) (\<lambda>tr1.
    boot_bind (wifi_init p tr1) (\<lambda>tr2.
    Inr (tr2 @ [XTaskCreate ''Publisher_Task'' (1024 * 5) 5])))"

text \<open>The calls a boot made, whether it finished or aborted.\<close>

fun boot_trace :: "boot_res \<Rightarrow> boot_call list" where
  "boot_trace (Inl (Abort tr r)) = tr"
| "boot_trace (Inr tr) = tr"

text \<open>When each phase succeeds, and the calls it then makes.\<close>

definition nvs_retry :: "platform \<Rightarrow> bool" where
  "nvs_retry p \<longleftrightarrow>
     nvs_init_first p = ESP_ERR_NVS_NO_FREE_PAGES \<or> nvs_init_first p = ESP_ERR_NVS_NEW_VERSION_FOUND"

definition nvs_ok :: "platform \<Rightarrow> bool" where
  "nvs_ok p \<longleftrightarrow>
     (if nvs_retry p then nvs_erase_res p = ESP_OK \<and> nvs_init_second p = ESP_OK
      else nvs_init_first p = ESP_OK)"

definition wifi_ok :: "platform \<Rightarrow> bool" where
  "wifi_ok p \<longleftrightarrow>
     netif_init_res p = ESP_OK \<and> loop_create_res p = ESP_OK \<and> wifi_init_res p = ESP_OK \<and>
     loop_init_res p = ESP_OK \<and> set_mode_res p = ESP_OK \<and> set_config_res p = ESP_OK \<and>
     wifi_start_res p = ESP_OK"

definition wifi_calls :: "boot_call list" where
  "wifi_calls = [Esp_netif_init, Esp_event_loop_create_default, Esp_netif_create_default_wifi_sta,
                 Esp_wifi_init, Esp_event_loop_init, Esp_wifi_set_mode,
                 Esp_wifi_set_config ''iphone'' ''boriasse'', Esp_wifi_start]"

definition nvs_calls :: "platform \<Rightarrow> boot_call list" where
  "nvs_calls p = (if nvs_retry p then [Nvs_flash_init, Nvs_flash_erase, Nvs_flash_init] else [Nvs_flash_init])"

subsection \<open>Lemmas on the phases\<close>

lemma boot_bind_Inr [simp]: "boot_bind (Inr tr) f = f tr"
  and boot_bind_Inl [simp]: "boot_bind (Inl a) f = Inl a"
  by (simp_all add: boot_bind_def)

lemma esp_error_check_ok [simp]: "esp_error_check c ESP_OK tr = Inr (tr @ [c])"
  by (simp add: esp_error_check_def)

lemma esp_error_check_Inr:
  "esp_error_check c r tr = Inr tr' \<longleftrightarrow> r = ESP_OK \<and> tr' = tr @ [c]"
  by (auto simp: esp_error_check_def)

lemma nvs_phase_Inr:
  "nvs_phase p = Inr tr \<longleftrightarrow> nvs_ok p \<and> tr = nvs_calls p"
  by (auto simp: nvs_phase_def nvs_ok_def nvs_retry_def nvs_calls_def esp_error_check_def
                 boot_bind_def Let_def split: sum.splits)

lemma wifi_init_Inr:
  "wifi_init p tr0 = Inr tr \<longleftrightarrow> wifi_ok p \<and> tr = tr0 @ wifi_calls"
  by (auto simp: wifi_init_def wifi_ok_def wifi_calls_def esp_error_check_def boot_bind_def Let_def
           split: sum.splits)

lemma boot_bind_Inr_iff:
  "boot_bind m f = Inr tr \<longleftrightarrow> (\<exists>tr1. m = Inr tr1 \<and> f tr1 = Inr tr)"
  by (cases m) auto

lemma nvs_phase_erase:
  "Nvs_flash_erase \<in> set (boot_trace (nvs_phase p)) \<longleftrightarrow> nvs_retry p"
  by (auto simp: nvs_phase_def nvs_retry_def esp_error_check_def boot_bind_def Let_def)

lemma wifi_init_no_erase:
  "Nvs_flash_erase \<in> set (boot_trace (wifi_init p tr)) \<longleftrightarrow> Nvs_flash_erase \<in> set tr"
  by (auto simp: wifi_init_def esp_error_check_def boot_bind_def Let_def)

lemma esp_error_check_Inl:
  "esp_error_check c r tr = Inl (Abort tr' r') \<longleftrightarrow> r \<noteq> ESP_OK \<and> r' = r \<and> tr' = tr @ [c]"
  by (auto simp: esp_error_check_def)

lemma nvs_phase_Inl:
  "nvs_phase p = Inl (Abort tr r) \<Longrightarrow> r \<noteq> ESP_OK \<and> set tr \<subseteq> {Nvs_flash_init, Nvs_flash_erase}"
  by (auto simp: nvs_phase_def boot_bind_def esp_error_check_Inl esp_error_check_Inr Let_def
           split: if_splits sum.splits)

lemma wifi_init_Inl:
  "wifi_init p tr0 = Inl (Abort tr r) \<Longrightarrow> r \<noteq> ESP_OK \<and> set tr \<subseteq> set tr0 \<union> set wifi_calls"
  by (auto simp: wifi_init_def boot_bind_def esp_error_check_Inl esp_error_check_Inr wifi_calls_def
                 Let_def split: sum.splits)

subsection \<open>Properties of the boot sequence\<close>

text \<open>
  C11. Boot succeeds exactly when NVS initialisation succeeds (after one erase and retry
  when the partition is full or from a newer version) and every checked Wi-Fi call
  returns \<open>ESP_OK\<close>; the calls are then the NVS calls, the Wi-Fi set-up in source
  order, and the creation of the publisher task.
\<close>

theorem app_main_succeeds_iff:
  "app_main p = Inr tr \<longleftrightarrow>
     nvs_ok p \<and> wifi_ok p \<and> tr = nvs_calls p @ wifi_calls @ [XTaskCreate ''Publisher_Task'' 5120 5]"
  by (auto simp: app_main_def boot_bind_Inr_iff nvs_phase_Inr wifi_init_Inr)

text \<open>
  C12. Ordering of a successful boot: the link handler is registered before the Wi-Fi
  driver is started, so the station-start event cannot be missed, and the publisher
  task is created last, after the driver was started once.
\<close>

theorem app_main_order:
  "app_main p = Inr tr \<Longrightarrow>
   \<exists>xs ys. tr = xs @ [Esp_event_loop_init] @ ys @ [Esp_wifi_start, XTaskCreate ''Publisher_Task'' 5120 5] \<and>
          Esp_wifi_start \<notin> set xs \<and> Esp_wifi_start \<notin> set ys"
proof -
  assume "app_main p = Inr tr"
  then have tr: "tr = nvs_calls p @ wifi_calls @ [XTaskCreate ''Publisher_Task'' 5120 5]"
    by (auto simp: app_main_def boot_bind_Inr_iff nvs_phase_Inr wifi_init_Inr)
  let ?xs = "nvs_calls p @ [Esp_netif_init, Esp_event_loop_create_default,
                            Esp_netif_create_default_wifi_sta, Esp_wifi_init]"
  let ?ys = "[Esp_wifi_set_mode, Esp_wifi_set_config ''iphone'' ''boriasse'']"
  have "tr = ?xs @ [Esp_event_loop_init] @ ?ys @ [Esp_wifi_start, XTaskCreate ''Publisher_Task'' 5120 5]"
    by (simp add: tr wifi_calls_def)
  moreover have "Esp_wifi_start \<notin> set ?xs" by (simp add: nvs_calls_def)
  ultimately show ?thesis by fastforce
qed

theorem app_main_order_witness:
  "app_main \<lparr>nvs_init_first = 0, nvs_init_second = 0, nvs_erase_res = 0, netif_init_res = 0,
             loop_create_res = 0, wifi_init_res = 0, loop_init_res = 0, set_mode_res = 0,
             set_config_res = 0, wifi_start_res = 0\<rparr> =
     Inr ([Nvs_flash_init] @ wifi_calls @ [XTaskCreate ''Publisher_Task'' 5120 5]) \<and>
   (\<exists>xs ys. [Nvs_flash_init] @ wifi_calls @ [XTaskCreate ''Publisher_Task'' 5120 5] =
       xs @ [Esp_event_loop_init] @ ys @ [Esp_wifi_start, XTaskCreate ''Publisher_Task'' 5120 5] \<and>
       Esp_wifi_start \<notin> set xs \<and> Esp_wifi_start \<notin> set ys)"
proof -
  let ?p = "\<lparr>nvs_init_first = 0, nvs_init_second = 0, nvs_erase_res = 0, netif_init_res = 0,
             loop_create_res = 0, wifi_init_res = 0, loop_init_res = 0, set_mode_res = 0,
             set_config_res = 0, wifi_start_res = 0\<rparr>"
  have run: "app_main ?p = Inr ([Nvs_flash_init] @ wifi_calls @ [XTaskCreate ''Publisher_Task'' 5120 5])"
    by (simp add: app_main_def nvs_phase_def wifi_init_def ESP_OK_def ESP_ERR_NVS_NO_FREE_PAGES_def
                  ESP_ERR_NVS_NEW_VERSION_FOUND_def esp_error_check_def wifi_calls_def)
  from app_main_order [OF run] run show ?thesis by blast
qed

text \<open>
  C13. NVS recovery: \<open>app_main\<close> erases the NVS partition exactly when the first
  initialisation returned no-free-pages or new-version-found, whatever happens later.
\<close>

theorem nvs_erase_iff:
  "Nvs_flash_erase \<in> set (boot_trace (app_main p)) \<longleftrightarrow> nvs_retry p"
proof (cases "nvs_phase p")
  case (Inl a)
  then show ?thesis using nvs_phase_erase [of p] by (simp add: app_main_def)
next
  case (Inr tr1)
  with nvs_phase_erase [of p] have e: "Nvs_flash_erase \<in> set tr1 \<longleftrightarrow> nvs_retry p" by simp
  show ?thesis
  proof (cases "wifi_init p tr1")
    case (Inl a)
    with Inr e wifi_init_no_erase [of p tr1] show ?thesis by (simp add: app_main_def)
  next
    case (Inr tr2)
    with \<open>nvs_phase p = Inr tr1\<close> e wifi_init_no_erase [of p tr1] show ?thesis
      by (simp add: app_main_def)
  qed
qed

text \<open>
  C14. Fatal boot errors: when an \<open>ESP_ERROR_CHECK\<close> aborts, the failing code is not
  \<open>ESP_OK\<close> and the publisher task was never created.
\<close>

theorem app_main_abort:
  "app_main p = Inl (Abort tr r) \<Longrightarrow>
   r \<noteq> ESP_OK \<and> XTaskCreate ''Publisher_Task'' 5120 5 \<notin> set tr"
proof (cases "nvs_phase p")
  case (Inl a)
  assume "app_main p = Inl (Abort tr r)"
  with Inl have "nvs_phase p = Inl (Abort tr r)" by (simp add: app_main_def)
  then show ?thesis by (auto dest: nvs_phase_Inl)
next
  case (Inr tr1)
  assume ab: "app_main p = Inl (Abort tr r)"
  with Inr have w: "wifi_init p tr1 = Inl (Abort tr r)"
    by (simp add: app_main_def boot_bind_def split: sum.splits)
  from Inr have t1: "tr1 = nvs_calls p" by (simp add: nvs_phase_Inr)
  have "XTaskCreate ''Publisher_Task'' 5120 5 \<notin> set (nvs_calls p) \<union> set wifi_calls"
    by (simp add: nvs_calls_def wifi_calls_def)
  then show ?thesis using wifi_init_Inl [OF w] t1 by blast
qed

theorem app_main_abort_witness:
  "app_main \<lparr>nvs_init_first = 0x110d, nvs_init_second = 0, nvs_erase_res = -1, netif_init_res = 0,
             loop_create_res = 0, wifi_init_res = 0, loop_init_res = 0, set_mode_res = 0,
             set_config_res = 0, wifi_start_res = 0\<rparr> =
     Inl (Abort [Nvs_flash_init, Nvs_flash_erase] (-1)) \<and>
   (-1::int) \<noteq> ESP_OK \<and> XTaskCreate ''Publisher_Task'' 5120 5 \<notin> set [Nvs_flash_init, Nvs_flash_erase]"
proof -
  let ?p = "\<lparr>nvs_init_first = 0x110d, nvs_init_second = 0, nvs_erase_res = -1, netif_init_res = 0,
             loop_create_res = 0, wifi_init_res = 0, loop_init_res = 0, set_mode_res = 0,
             set_config_res = 0, wifi_start_res = 0\<rparr>"
  have run: "app_main ?p = Inl (Abort [Nvs_flash_init, Nvs_flash_erase] (-1))"
    by (simp add: app_main_def nvs_phase_def ESP_OK_def ESP_ERR_NVS_NO_FREE_PAGES_def
                  esp_error_check_def)
  from app_main_abort [OF run] run show ?thesis by simp
qed

end
