(* ===== verification/Spec2Isabelle.thy ===== *)
theory Spec2Isabelle
  imports System Boot
begin

text \<open>
  \<^bold>\<open>A verification model of the ESP32 MQTT publisher firmware (src/src/main.c).\<close>

  \<^emph>\<open>The program.\<close> One C file. \<open>app_main\<close> initialises NVS, calls \<open>wifi_init\<close>
  (which registers the Wi-Fi event handler \<open>event_handler\<close> and starts the driver)
  and creates the FreeRTOS task \<open>Publisher_Task\<close>. The link monitor
  \<open>event_handler\<close> asks the driver to connect on station start and after every
  disconnect. It calls \<open>mqtt_app_start\<close> whenever an address is acquired, which
  creates an MQTT client, stores it in the global \<open>client\<close>, registers
  \<open>mqtt_event_handler\<close> and starts it. The session controller \<open>mqtt_event_handler\<close>
  sets the shared flag \<open>MQTT_CONNECTED\<close> and subscribes to three topics on connect.
  It clears the flag on disconnect, prints topic and payload on data, and only logs
  otherwise. \<open>Publisher_Task\<close> loops forever. While the flag is set it publishes a
  fixed message on the current client and waits 15 s; while it is clear it re-tests
  at once.

  \<^emph>\<open>The theories.\<close>
  \<^item> \<open>Prelude\<close>: machine types (\<open>uint32_t\<close> as \<open>32 word\<close>, \<open>esp_err_t\<close> as
    \<open>int\<close>), rule collections, list and flag lemmas.
  \<^item> \<open>Firmware_State\<close>: the record \<open>globals\<close>. Its fields are \<open>MQTT_CONNECTED\<close>,
    \<open>client\<close> (\<open>NULL\<close> is \<open>None\<close>), the MQTT library's handle counter, and the
    log \<open>calls\<close> of every call the firmware makes into a library, in order. That
    log is the observable behaviour.
  \<^item> \<open>Mqtt_Handler\<close>: \<open>mqtt_event_handler\<close> (lines 100-161), every branch, and
    \<open>printf("%.*s")\<close> as \<open>printf_view\<close>. Specifications: the subscription set,
    \<open>last_session_status\<close> (the health the design promises), and
    \<open>printed_view\<close> (what \<open>%.*s\<close> prints).
  \<^item> \<open>Mqtt_Start\<close>: \<open>mqtt_app_start\<close> (lines 167-182). The library call
    \<open>esp_mqtt_client_init\<close> returns a fresh handle or \<open>NULL\<close>.
  \<^item> \<open>Wifi_Handler\<close>: \<open>event_handler\<close> (lines 34-65) and \<open>wifi_run\<close>, the event
    loop over a sequence of link events.
  \<^item> \<open>Publisher\<close>: \<open>Publisher_Task\<close> (lines 185-198) as \<open>publisher_step\<close> over a
    program counter: flag test, publish, \<open>vTaskDelay\<close> countdown.
  \<^item> \<open>Boot\<close>: \<open>app_main\<close> (lines 201-216) and \<open>wifi_init\<close> (lines 68-97). The
    platform's return codes are a record \<open>platform\<close>; \<open>ESP_ERROR_CHECK\<close> is the
    error value \<open>Abort\<close> of a sum type.
  \<^item> \<open>System\<close>: the three execution contexts together. \<open>sys_step\<close> is an inductive
    relation with one rule per context: a link event, an event of a started session,
    or a publisher step, interleaved in any order. \<open>reachable\<close> holds the states
    reachable from the state \<open>app_main\<close> leaves; \<open>sys_apply\<close> and \<open>sys_exec\<close>
    are the executable version. \<open>sys_inv\<close> is the invariant.

  \<^emph>\<open>How the interaction is modelled.\<close> The contexts share only \<open>MQTT_CONNECTED\<close>
  and \<open>client\<close>. Each handler writes at most one of them, so running a handler as one
  step loses no interleaving. The publisher's read of the flag and its read of the
  client are separate steps. Session events come only from started clients, carrying
  their own handle. Link events may arrive in any order, and each address acquisition
  may or may not get a client from the library. Every read sees the last write
  (sequential consistency).

  \<^emph>\<open>What is proved.\<close>
  \<^item> Invariant (C1): in every reachable state the flag is 0 or 1, a non-NULL client
    is started, and every handle used was handed out and started.
  \<^item> Refinement (C2): the flag refines the abstract health of the event sequence.
  \<^item> The session controller on every branch. A connect sets the flag and subscribes
    (C3, with the count over runs C10). A disconnect clears the flag and issues no
    call, contrary to the comment above it (C17). A data event prints the topic and
    payload views that the declarative specification \<open>printed_view\<close> of \<open>%.*s\<close>
    determines, each bounded by its own length field (C16). Every other event leaves
    the state unchanged (C15).
  \<^item> The link handler: one connect request per start or disconnect (C7), one client
    per address acquisition (C9), always \<open>ESP_OK\<close> (C20).
  \<^item> The publisher loop: a publish followed by the delay (C4), a busy spin with the
    flag clear (C5), and resumption (C6).
  \<^item> Boot on success and on every abort path (C11-C14).
  \<^item> Publish targets (C18) and the system-level resumption below (C21).
  \<^item> Reachable defects, proved as existence theorems:
    \<^item> a publish right after a disconnect, through the check-then-act race (C8);
    \<^item> a publish on \<open>NULL\<close> after a failed re-initialisation (C19).
  \<^item> Helper lemmas carry the proofs. \<open>sys_step_iff_apply\<close> shows that the executable step
    agrees with the step relation. \<open>invariant_holds\<close> combines the per-context
    preservation lemmas. \<open>publish_within\<close> is the loop's resumption argument.

  \<^emph>\<open>Bounds and fuel.\<close> The model uses no fuel. \<open>Publisher_Task\<close> never returns,
  so it is a step function, and its runs are iterations \<open>publisher_step d ^^ k\<close> of
  any length. The delay \<open>d\<close>, the tick count \<open>15000 / portTICK_PERIOD_MS\<close> that
  the code passes to \<open>vTaskDelay\<close>, is a parameter of every result, so they hold at
  every tick rate; it is 1500 ticks at the ESP-IDF default of 100 Hz. Resumption is proved within
  \<open>d + 3\<close> publisher steps: at most \<open>d + 1\<close> to finish a delay, one to test the
  flag and one to publish.

  \<^emph>\<open>Not modelled.\<close>
  \<^item> Logging output.
  \<^item> The internals of the Wi-Fi driver, lwIP, NVS, the MQTT library and FreeRTOS.
    Only the calls into them and their return values appear, and \<open>publish\<close> and
    \<open>subscribe\<close> results are ignored as the code ignores them.
  \<^item> The C memory model. The non-atomic, non-volatile access to \<open>MQTT_CONNECTED\<close>
    is recorded as a finding, not modelled.
  \<^item> Timing beyond the publisher's own tick countdown.

  \<^emph>\<open>Plan for later sittings.\<close>
  \<^item> Fairness of the scheduler, to lift resumption to all interleavings without
    disconnects.
  \<^item> A corrected model: atomic flag, guarded session start, per-session health,
    with mutants.
  \<^item> The boot sequence composed with \<open>initial_sys\<close>.
\<close>

subsection \<open>Properties across components\<close>

text \<open>
  C21. System-level resumption: from any reachable state in which the flag is set,
  running only the publisher (no session event intervenes) issues a publish on the
  current client within \<open>d + 3\<close> publisher steps, through reachable states.
\<close>

theorem system_publish_resumes:
  assumes "reachable d s" and "mqtt_connected (glob s) \<noteq> 0"
  shows "\<exists>k \<le> d + 3. \<exists>t. sys_exec d (replicate k Publisher_step) s = Some t \<and> reachable d t \<and>
           calls (glob t) = calls (glob s) @ [publish_call (glob s)]"
proof -
  from assms(1) have "pc_bounded d (pc s)" by (auto dest: invariant_holds simp: sys_inv_def)
  with assms(2) obtain k where k: "k \<le> d + 3"
    and c: "calls (snd ((publisher_step d ^^ k) (pc s, glob s))) = calls (glob s) @ [publish_call (glob s)]"
    using publish_within by blast
  let ?t = "\<lparr>glob = snd ((publisher_step d ^^ k) (pc s, glob s)),
             pc = fst ((publisher_step d ^^ k) (pc s, glob s))\<rparr>"
  have ex: "sys_exec d (replicate k Publisher_step) s = Some ?t" by (rule sys_exec_publisher)
  from assms(1) ex have "reachable d ?t" by (rule sys_exec_reachable)
  with k ex c show ?thesis by auto
qed

theorem system_publish_resumes_witness:
  "\<exists>k \<le> 1500 + 3. \<exists>t. sys_exec 1500 (replicate k Publisher_step)
      \<lparr>glob = \<lparr>mqtt_connected = 1, client = Some 0, next_handle = 1,
              calls = [Mqtt_client_init broker_uri, Mqtt_register_event (Some 0),
                       Mqtt_client_start (Some 0), Mqtt_subscribe (Some 0) ''/cm/test1'' 0,
                       Mqtt_subscribe (Some 0) ''/cm/test2'' 1,
                       Mqtt_subscribe (Some 0) ''/tge/e0000000/sub'' 1]\<rparr>, pc = Pub_Loop\<rparr> = Some t \<and>
     Mqtt_publish (Some 0) pub_topic pub_payload 0 0 0 \<in> set (calls (glob t))"
proof -
  let ?s = "\<lparr>glob = \<lparr>mqtt_connected = 1, client = Some 0, next_handle = 1,
              calls = [Mqtt_client_init broker_uri, Mqtt_register_event (Some 0),
                       Mqtt_client_start (Some 0), Mqtt_subscribe (Some 0) ''/cm/test1'' 0,
                       Mqtt_subscribe (Some 0) ''/cm/test2'' 1,
                       Mqtt_subscribe (Some 0) ''/tge/e0000000/sub'' 1]\<rparr>, pc = Pub_Loop\<rparr>"
  have "sys_exec 1500 [Link_event SYSTEM_EVENT_STA_GOT_IP True,
                       Session_event (simple_event MQTT_EVENT_CONNECTED 0)] initial_sys = Some ?s"
    by (simp add: sys_eval_simps)
  with reachable.init have r: "reachable 1500 ?s" by (rule sys_exec_reachable)
  have "mqtt_connected (glob ?s) \<noteq> 0" by simp
  from system_publish_resumes [OF r this] show ?thesis
    by (auto simp: publish_call_def)
qed

end
